theory Spec2Isabelle
  imports Complex_Main
begin

section \<open>Numeric dataset utilities: \<open>normalise\<close> and \<open>summarise\<close>\<close>

text \<open>
  The module \<^verbatim>\<open>demos/code-viewer-sample.py\<close> holds two functions over in-memory
  sequences of numbers.  Python's \<^verbatim>\<open>float\<close> is idealised as \<^typ>\<open>real\<close>
  (exact arithmetic: no rounding, no overflow, no NaN); Python's \<^verbatim>\<open>int\<close> is
  \<^typ>\<open>int\<close>; a list entry that may be \<^verbatim>\<open>None\<close> is a \<^typ>\<open>real option\<close>.
  Every exception the interpreter can raise on the way is a value of \<open>py_error\<close>.
\<close>

subsection \<open>Built-ins used by the module\<close>

datatype py_error = ValueError | ZeroDivisionError | StatisticsError | TypeError

text \<open>
  \<^verbatim>\<open>min(values)\<close>: raises \<^verbatim>\<open>ValueError\<close> on an empty sequence; otherwise it
  keeps the first item and replaces it whenever a later item is strictly smaller.
\<close>

fun py_min :: "real list \<Rightarrow> py_error + real" where
  "py_min [] = Inl ValueError"
| "py_min (x # xs) = Inr (fold (\<lambda>item min_item. if item < min_item then item else min_item) xs x)"

text \<open>\<^verbatim>\<open>max(values)\<close>: the same scan with \<^verbatim>\<open>>\<close>.\<close>

fun py_max :: "real list \<Rightarrow> py_error + real" where
  "py_max [] = Inl ValueError"
| "py_max (x # xs) = Inr (fold (\<lambda>item max_item. if item > max_item then item else max_item) xs x)"

text \<open>\<^verbatim>\<open>a / b\<close> on floats raises \<^verbatim>\<open>ZeroDivisionError\<close> when \<^verbatim>\<open>b\<close> is zero.\<close>

definition py_truediv :: "real \<Rightarrow> real \<Rightarrow> py_error + real" where
  "py_truediv a b = (if b = 0 then Inl ZeroDivisionError else Inr (a / b))"

text \<open>
  A list comprehension \<^verbatim>\<open>[f(x) for x in xs]\<close> whose element expression may raise:
  elements are produced left to right and the first exception aborts the whole
  comprehension.
\<close>

fun list_comp :: "('a \<Rightarrow> py_error + 'b) \<Rightarrow> 'a list \<Rightarrow> py_error + 'b list" where
  "list_comp f [] = Inr []"
| "list_comp f (x # xs) =
     (case f x of
        Inl e \<Rightarrow> Inl e
      | Inr y \<Rightarrow> (case list_comp f xs of Inl e \<Rightarrow> Inl e | Inr ys \<Rightarrow> Inr (y # ys)))"

text \<open>
  \<^verbatim>\<open>statistics.mean(data)\<close>: raises \<^verbatim>\<open>StatisticsError\<close> on empty data; otherwise
  the exact sum divided by the number of items.
\<close>

definition mean :: "real list \<Rightarrow> py_error + real" where
  "mean data = (if data = [] then Inl StatisticsError
                else Inr (sum_list data / real (length data)))"

subsection \<open>The module\<close>

text \<open>
  \<^verbatim>\<open>
  def normalise(values):
      if not values:
          return []
      lower, upper = min(values), max(values)
      if lower == upper:
          return [1.0 for _ in values]
      spread = upper - lower
      return [(value - lower) / spread for value in values]
  \<close>
\<close>

definition normalise :: "real list \<Rightarrow> py_error + real list" where
  "normalise values =
     (if values = [] then Inr []
      else
        (case py_min values of
           Inl e \<Rightarrow> Inl e
         | Inr lower \<Rightarrow>
             (case py_max values of
                Inl e \<Rightarrow> Inl e
              | Inr upper \<Rightarrow>
                  if lower = upper then Inr [1 . _ \<leftarrow> values]
                  else
                    (let spread = upper - lower
                     in list_comp (\<lambda>value. py_truediv (value - lower) spread) values))))"

text \<open>
  \<^verbatim>\<open>
  @dataclass(slots=True)
  class Summary:
      count: int
      average: float

  def summarise(values):
      cleaned = [value for value in values if value is not None]
      return Summary(count=len(cleaned), average=mean(cleaned) if cleaned else 0.0)
  \<close>
\<close>

record Summary =
  count :: int
  average :: real

definition summarise :: "real option list \<Rightarrow> py_error + Summary" where
  "summarise values =
     (let cleaned = [the value . value \<leftarrow> values, value \<noteq> None]
      in if cleaned \<noteq> []
         then (case mean cleaned of
                 Inl e \<Rightarrow> Inl e
               | Inr m \<Rightarrow> Inr \<lparr>count = int (length cleaned), average = m\<rparr>)
         else Inr \<lparr>count = int (length cleaned), average = 0\<rparr>)"

subsection \<open>The module over an explicit object store\<close>

text \<open>
  To speak about mutation and freshness, the same two functions are written once more
  over a store of objects.  A reference is an index into the store; allocation appends a
  new object, so a fresh reference is one past every reference that existed before.
  Lists are the only mutable objects the module touches; floats and \<^verbatim>\<open>None\<close> are
  immutable and are kept as values inside the lists.
\<close>

datatype 'a pyobj = ListObj "'a list" | SummaryObj Summary

type_synonym 'a heap = "'a pyobj list"

definition new_obj :: "'a heap \<Rightarrow> 'a pyobj \<Rightarrow> 'a heap \<times> nat" where
  "new_obj h obj = (h @ [obj], length h)"

text \<open>Reading the items of the list behind a reference (iteration, \<^verbatim>\<open>len\<close>, truth value).\<close>

definition load_list :: "'a heap \<Rightarrow> nat \<Rightarrow> py_error + 'a list" where
  "load_list h a =
     (if a < length h
      then (case h ! a of ListObj items \<Rightarrow> Inr items | SummaryObj _ \<Rightarrow> Inl TypeError)
      else Inl TypeError)"

text \<open>The only write of the module: appending one item to the list a comprehension builds.\<close>

definition list_append :: "'a heap \<Rightarrow> nat \<Rightarrow> 'a \<Rightarrow> py_error + 'a heap" where
  "list_append h r item =
     (if r < length h
      then (case h ! r of
              ListObj items \<Rightarrow> Inr (h[r := ListObj (items @ [item])])
            | SummaryObj _ \<Rightarrow> Inl TypeError)
      else Inl TypeError)"

text \<open>
  The loop of a comprehension \<^verbatim>\<open>[e(x) for x in xs if c(x)]\<close>: the element function
  returns \<open>None\<close> for an item the condition rejects, \<open>Some y\<close> for an item to append to
  the list at \<open>r\<close>, or raises.
\<close>

fun comp_loop :: "('a \<Rightarrow> py_error + 'a option) \<Rightarrow> 'a list \<Rightarrow> 'a heap \<Rightarrow> nat \<Rightarrow> py_error + 'a heap" where
  "comp_loop f [] h r = Inr h"
| "comp_loop f (x # xs) h r =
     (case f x of
        Inl e \<Rightarrow> Inl e
      | Inr None \<Rightarrow> comp_loop f xs h r
      | Inr (Some y) \<Rightarrow>
          (case list_append h r y of Inl e \<Rightarrow> Inl e | Inr h' \<Rightarrow> comp_loop f xs h' r))"

text \<open>A comprehension over the list at \<open>a\<close>: allocate an empty list, run the loop, return it.\<close>

definition list_comp_st :: "('a \<Rightarrow> py_error + 'a option) \<Rightarrow> 'a heap \<Rightarrow> nat \<Rightarrow> py_error + 'a heap \<times> nat" where
  "list_comp_st f h a =
     (case load_list h a of
        Inl e \<Rightarrow> Inl e
      | Inr items \<Rightarrow>
          (case new_obj h (ListObj []) of
             (h1, r) \<Rightarrow>
               (case comp_loop f items h1 r of Inl e \<Rightarrow> Inl e | Inr h2 \<Rightarrow> Inr (h2, r))))"

definition normalise_st :: "real heap \<Rightarrow> nat \<Rightarrow> py_error + real heap \<times> nat" where
  "normalise_st h values =
     (case load_list h values of
        Inl e \<Rightarrow> Inl e
      | Inr items \<Rightarrow>
          if items = [] then Inr (new_obj h (ListObj []))
          else
            (case py_min items of
               Inl e \<Rightarrow> Inl e
             | Inr lower \<Rightarrow>
                 (case py_max items of
                    Inl e \<Rightarrow> Inl e
                  | Inr upper \<Rightarrow>
                      if lower = upper then list_comp_st (\<lambda>_. Inr (Some 1)) h values
                      else
                        (let spread = upper - lower
                         in list_comp_st
                              (\<lambda>value. map_sum id Some (py_truediv (value - lower) spread))
                              h values))))"

text \<open>\<^verbatim>\<open>mean\<close> over items that may still be \<^verbatim>\<open>None\<close>: adding \<^verbatim>\<open>None\<close> raises.\<close>

definition mean_items :: "real option list \<Rightarrow> py_error + real" where
  "mean_items items =
     (if items = [] then Inl StatisticsError
      else if None \<in> set items then Inl TypeError
      else mean (map the items))"

definition summarise_st :: "real option heap \<Rightarrow> nat \<Rightarrow> py_error + real option heap \<times> nat" where
  "summarise_st h values =
     (case list_comp_st (\<lambda>value. Inr (if value \<noteq> None then Some value else None)) h values of
        Inl e \<Rightarrow> Inl e
      | Inr (h1, cleaned) \<Rightarrow>
          (case load_list h1 cleaned of
             Inl e \<Rightarrow> Inl e
           | Inr items \<Rightarrow>
               if items \<noteq> []
               then (case mean_items items of
                       Inl e \<Rightarrow> Inl e
                     | Inr m \<Rightarrow>
                         Inr (new_obj h1 (SummaryObj \<lparr>count = int (length items), average = m\<rparr>)))
               else Inr (new_obj h1 (SummaryObj \<lparr>count = int (length items), average = 0\<rparr>))))"

section \<open>Properties\<close>

subsection \<open>The built-ins agree with their mathematical counterparts\<close>

text \<open>
  The scans of \<^verbatim>\<open>min\<close> and \<^verbatim>\<open>max\<close> compute the least and the greatest item.
\<close>

lemma fold_min_Min:
  "fold (\<lambda>item min_item. if item < min_item then item else min_item) xs (x::real) = Min (set (x # xs))"
proof -
  have "(\<lambda>item min_item. if item < min_item then item else min_item) = (min :: real \<Rightarrow> real \<Rightarrow> real)"
    by (auto simp: fun_eq_iff min_def)
  then show ?thesis
    by (simp only: Min.set_eq_fold)
qed

lemma fold_max_Max:
  "fold (\<lambda>item max_item. if item > max_item then item else max_item) xs (x::real) = Max (set (x # xs))"
proof -
  have "(\<lambda>item max_item. if item > max_item then item else max_item) = (max :: real \<Rightarrow> real \<Rightarrow> real)"
    by (auto simp: fun_eq_iff max_def)
  then show ?thesis
    by (simp only: Max.set_eq_fold)
qed

lemma py_min_Min: "xs \<noteq> [] \<Longrightarrow> py_min xs = Inr (Min (set xs))"
  by (cases xs) (simp_all only: py_min.simps fold_min_Min, simp)

lemma py_max_Max: "xs \<noteq> [] \<Longrightarrow> py_max xs = Inr (Max (set xs))"
  by (cases xs) (simp_all only: py_max.simps fold_max_Max, simp)

text \<open>
  A comprehension none of whose elements raises is a plain \<open>map\<close>.
\<close>

lemma list_comp_map:
  "(\<And>x. x \<in> set xs \<Longrightarrow> f x = Inr (g x)) \<Longrightarrow> list_comp f xs = Inr (map g xs)"
  by (induction xs) simp_all

subsection \<open>\<open>normalise\<close>\<close>

text \<open>
  The two branches of \<open>normalise\<close> on a non-empty input, in closed form.
\<close>

lemma normalise_spread:
  assumes "values \<noteq> []" and "Min (set values) \<noteq> Max (set values)"
  shows "normalise values =
     Inr (map (\<lambda>value. (value - Min (set values)) / (Max (set values) - Min (set values))) values)"
proof -
  have "py_truediv (v - Min (set values)) (Max (set values) - Min (set values))
      = Inr ((v - Min (set values)) / (Max (set values) - Min (set values)))" for v
    using assms(2) by (simp add: py_truediv_def)
  then have "list_comp (\<lambda>value. py_truediv (value - Min (set values)) (Max (set values) - Min (set values))) values
      = Inr (map (\<lambda>value. (value - Min (set values)) / (Max (set values) - Min (set values))) values)"
    by (intro list_comp_map)
  then show ?thesis
    using assms by (simp add: normalise_def py_min_Min py_max_Max)
qed

lemma normalise_flat:
  assumes "values \<noteq> []" and "Min (set values) = Max (set values)"
  shows "normalise values = Inr (replicate (length values) 1)"
  using assms by (simp add: normalise_def py_min_Min py_max_Max map_replicate_const)



text \<open>
  Claim C3.  For every non-empty sequence all of whose elements equal one constant
  \<open>c\<close> (a single-element sequence included), \<open>normalise\<close> returns a sequence of
  the same length in which every element is 1.
\<close>

theorem normalise_constant:
  assumes "values \<noteq> []" and "\<forall>v \<in> set values. v = c"
  shows "normalise values = Inr (replicate (length values) 1)"
proof -
  from assms have "set values = {c}" by (cases "values") auto
  then have "Min (set values) = Max (set values)" by simp
  with assms(1) show ?thesis by (rule normalise_flat)
qed

theorem normalise_constant_witness:
  "[5, 5 :: real] \<noteq> [] \<and> set [5, 5 :: real] = {5} \<and> normalise [5, 5] = Inr [1, 1] \<and>
   [5 :: real] \<noteq> [] \<and> set [5 :: real] = {5} \<and> normalise [5] = Inr [1]"
proof -
  have "\<forall>v \<in> set [5, 5 :: real]. v = 5" and "\<forall>v \<in> set [5 :: real]. v = 5"
    by simp_all
  then show ?thesis
    using normalise_constant [of "[5, 5]" 5] normalise_constant [of "[5]" 5] by simp
qed

text \<open>
  Claim C4.  \<open>normalise\<close> applied to the empty sequence returns the empty sequence.
\<close>

theorem normalise_empty: "normalise [] = Inr []"
  by (simp add: normalise_def)

text \<open>
  Claim C6.  A non-empty sequence whose minimum is 0 and whose maximum is 1 (hence not
  constant) is returned unchanged by \<open>normalise\<close>.
\<close>

theorem normalise_unit_range_fixed:
  assumes "values \<noteq> []" and "Min (set values) = 0" and "Max (set values) = 1"
  shows "normalise values = Inr values"
proof -
  from assms have "Min (set values) \<noteq> Max (set values)" by simp
  with assms(1) have "normalise values =
      Inr (map (\<lambda>v. (v - Min (set values)) / (Max (set values) - Min (set values))) values)"
    by (rule normalise_spread)
  with assms(2,3) show ?thesis by simp
qed

theorem normalise_unit_range_fixed_witness:
  "[0, 1 / 4, 1 :: real] \<noteq> [] \<and> Min (set [0, 1 / 4, 1 :: real]) = 0 \<and>
   Max (set [0, 1 / 4, 1 :: real]) = 1 \<and> normalise [0, 1 / 4, 1] = Inr [0, 1 / 4, 1]"
  using normalise_unit_range_fixed [of "[0, 1 / 4, 1]"] by simp


text \<open>
  Scaling is monotone, so it maps the least item to 0 and the greatest to 1.
\<close>

lemma scaled_Min_Max:
  fixes xs :: "real list"
  assumes ne: "xs \<noteq> []" and d: "Min (set xs) \<noteq> Max (set xs)"
  defines "f \<equiv> \<lambda>v. (v - Min (set xs)) / (Max (set xs) - Min (set xs))"
  shows "Min (set (map f xs)) = 0" and "Max (set (map f xs)) = 1"
proof -
  have "Min (set xs) \<le> Max (set xs)" using ne by (simp add: Min_le_iff)
  with d have pos: "0 < Max (set xs) - Min (set xs)" by simp
  have "mono f"
    unfolding f_def using pos by (intro monoI) (simp add: divide_right_mono)
  have fin: "finite (set xs)" and nem: "set xs \<noteq> {}" using ne by simp_all
  have "Min (f ` set xs) = f (Min (set xs))"
    using mono_Min_commute [OF \<open>mono f\<close> fin nem] by simp
  then show "Min (set (map f xs)) = 0" by (simp add: f_def)
  have "Max (f ` set xs) = f (Max (set xs))"
    using mono_Max_commute [OF \<open>mono f\<close> fin nem] by simp
  then show "Max (set (map f xs)) = 1" using pos by (simp add: f_def)
qed

text \<open>
  Claim C9.  \<open>normalise\<close> is idempotent on every input (empty, constant or not):
  normalising the result of \<open>normalise\<close> gives that result again.
\<close>

theorem normalise_idempotent:
  "\<exists>out. normalise values = Inr out \<and> normalise out = Inr out"
proof (cases "values = []")
  case True
  then show ?thesis by (simp add: normalise_def)
next
  case ne: False
  show ?thesis
  proof (cases "Min (set values) = Max (set values)")
    case True
    let ?out = "replicate (length values) (1::real)"
    have out: "normalise values = Inr ?out" using ne True by (rule normalise_flat)
    have "?out \<noteq> []" using ne by simp
    moreover have "Min (set ?out) = Max (set ?out)" using ne by simp
    ultimately have "normalise ?out = Inr (replicate (length ?out) 1)" by (rule normalise_flat)
    with out show ?thesis by simp
  next
    case False
    let ?out = "map (\<lambda>v. (v - Min (set values)) / (Max (set values) - Min (set values))) values"
    have out: "normalise values = Inr ?out" using ne False by (rule normalise_spread)
    have "?out \<noteq> []" using ne by simp
    moreover have "Min (set ?out) = 0" using ne False by (rule scaled_Min_Max)
    moreover have "Max (set ?out) = 1" using ne False by (rule scaled_Min_Max)
    ultimately have "normalise ?out = Inr (map (\<lambda>v. (v - 0) / (1 - 0)) ?out)"
      using normalise_spread [of ?out] by simp
    then have "normalise ?out = Inr ?out" by simp
    with out show ?thesis by blast
  qed
qed

subsection \<open>\<open>summarise\<close>\<close>

text \<open>
  The comprehension that builds \<open>cleaned\<close> is a filter, and \<open>summarise\<close> has
  a closed form over the filtered input.
\<close>

lemma cleaned_filter:
  "[the value . value \<leftarrow> vs, value \<noteq> None] = map the (filter (\<lambda>v. v \<noteq> None) vs)"
  by (induction vs) simp_all

lemma summarise_eq:
  "summarise vs =
     Inr \<lparr>count = int (length (filter (\<lambda>v. v \<noteq> None) vs)),
          average = (if filter (\<lambda>v. v \<noteq> None) vs = [] then 0
                     else sum_list (map the (filter (\<lambda>v. v \<noteq> None) vs))
                          / real (length (filter (\<lambda>v. v \<noteq> None) vs)))\<rparr>"
proof (cases "filter (\<lambda>v. v \<noteq> None) vs = []")
  case True
  then show ?thesis
    unfolding summarise_def cleaned_filter Let_def by simp
next
  case False
  then show ?thesis
    unfolding summarise_def cleaned_filter Let_def mean_def by simp
qed

text \<open>
  Claim C2.  For every input, \<open>summarise\<close> returns a \<open>Summary\<close> whose
  \<open>count\<close> is the number of entries that are not \<open>None\<close> and whose \<open>average\<close>
  is the sum of the retained entries divided by \<open>count\<close> when \<open>count > 0\<close>, and 0
  when \<open>count = 0\<close>; the retained entries are the input with the \<open>None\<close> entries
  removed, in the original order.
\<close>

theorem summarise_count_average:
  "\<exists>s retained. summarise vs = Inr s \<and>
     map Some retained = filter (\<lambda>v. v \<noteq> None) vs \<and>
     count s = int (length retained) \<and>
     average s = (if count s > 0 then sum_list retained / real_of_int (count s) else 0)"
proof -
  let ?kept = "filter (\<lambda>v. v \<noteq> None) vs"
  let ?s = "\<lparr>count = int (length ?kept),
             average = (if ?kept = [] then 0 else sum_list (map the ?kept) / real (length ?kept))\<rparr>"
  have "summarise vs = Inr ?s" by (rule summarise_eq)
  moreover have "map Some (map the ?kept) = ?kept"
    by (induction vs) auto
  moreover have "count ?s = int (length (map the ?kept))" by simp
  moreover have "average ?s = (if count ?s > 0 then sum_list (map the ?kept) / real_of_int (count ?s) else 0)"
    by simp
  ultimately show ?thesis by blast
qed

text \<open>
  Claim C5.  Only \<open>None\<close> is filtered out.  An entry equal to the number 0, put
  anywhere into the input, is retained: it raises \<open>count\<close> by one and enters the mean
  (the sum is unchanged, the divisor is one larger), whereas a \<open>None\<close> at the same
  place changes nothing.
\<close>

theorem summarise_keeps_zero:
  "\<exists>s s0. summarise (xs @ ys) = Inr s \<and> summarise (xs @ None # ys) = Inr s \<and>
     summarise (xs @ Some 0 # ys) = Inr s0 \<and>
     count s0 = count s + 1 \<and>
     average s0 = sum_list (map the (filter (\<lambda>v. v \<noteq> None) (xs @ ys))) / real_of_int (count s + 1)"
  by (simp add: summarise_eq add.commute)

text \<open>
  Claim C10.  The \<open>count\<close> of the returned \<open>Summary\<close> is at most the length
  of the input (and never negative).
\<close>

theorem summarise_count_bounded:
  "\<exists>s. summarise vs = Inr s \<and> 0 \<le> count s \<and> count s \<le> int (length vs)"
  by (simp add: summarise_eq)

subsection \<open>No mutation of the input\<close>

text \<open>
  The loop of a comprehension writes to the list at \<open>r\<close> only, and a
  comprehension leaves every object that existed before in place and puts its result
  behind a new reference.
\<close>

lemma comp_loop_appends:
  assumes "r < length h" and "h ! r = ListObj acc" and "\<And>x. x \<in> set xs \<Longrightarrow> f x = Inr (g x)"
  shows "comp_loop f xs h r = Inr (h[r := ListObj (acc @ List.map_filter g xs)])"
  using assms
proof (induction xs arbitrary: h acc)
  case Nil
  from Nil have "h[r := ListObj acc] = h" by (metis list_update_id)
  then show ?case by (simp add: List.map_filter_simps)
next
  case (Cons x xs)
  show ?case
  proof (cases "g x")
    case None
    with Cons show ?thesis by (simp add: List.map_filter_simps)
  next
    case (Some y)
    let ?h' = "h[r := ListObj (acc @ [y])]"
    have step: "list_append h r y = Inr ?h'"
      using Cons.prems(1,2) by (simp add: list_append_def)
    have "comp_loop f xs ?h' r = Inr (?h'[r := ListObj ((acc @ [y]) @ List.map_filter g xs)])"
      using Cons.prems by (intro Cons.IH) simp_all
    with Some step Cons.prems(3) show ?thesis by (simp add: List.map_filter_simps)
  qed
qed

lemma list_comp_st_allocates:
  assumes "a < length h" and "h ! a = ListObj xs" and "\<And>x. x \<in> set xs \<Longrightarrow> f x = Inr (g x)"
  shows "list_comp_st f h a = Inr (h @ [ListObj (List.map_filter g xs)], length h)"
proof -
  have "comp_loop f xs (h @ [ListObj []]) (length h)
      = Inr ((h @ [ListObj []])[length h := ListObj ([] @ List.map_filter g xs)])"
    using assms(3) by (intro comp_loop_appends) simp_all
  then show ?thesis
    using assms(1,2) by (simp add: list_comp_st_def load_list_def new_obj_def)
qed

lemma normalise_st_allocates:
  assumes "a < length h" and "h ! a = ListObj xs"
  shows "\<exists>out. normalise xs = Inr out \<and> normalise_st h a = Inr (h @ [ListObj out], length h)"
proof (cases "xs = []")
  case True
  with assms show ?thesis
    by (simp add: normalise_def normalise_st_def load_list_def new_obj_def)
next
  case ne: False
  let ?lo = "Min (set xs)" and ?hi = "Max (set xs)"
  show ?thesis
  proof (cases "?lo = ?hi")
    case True
    have "list_comp_st (\<lambda>_. Inr (Some 1)) h a
        = Inr (h @ [ListObj (List.map_filter (\<lambda>_. Some 1) xs)], length h)"
      using assms by (intro list_comp_st_allocates) simp_all
    moreover have "List.map_filter (\<lambda>_. Some (1::real)) xs = replicate (length xs) 1"
      by (simp add: List.map_filter_def comp_def map_replicate_const)
    ultimately have "normalise_st h a = Inr (h @ [ListObj (replicate (length xs) 1)], length h)"
      using assms ne True by (simp add: normalise_st_def load_list_def py_min_Min py_max_Max)
    with normalise_flat [OF ne True] show ?thesis by simp
  next
    case False
    let ?g = "\<lambda>v. (v - ?lo) / (?hi - ?lo)"
    have "list_comp_st (\<lambda>v. map_sum id Some (py_truediv (v - ?lo) (?hi - ?lo))) h a
        = Inr (h @ [ListObj (List.map_filter (\<lambda>v. Some (?g v)) xs)], length h)"
      using assms False by (intro list_comp_st_allocates) (simp_all add: py_truediv_def)
    moreover have "List.map_filter (\<lambda>v. Some (?g v)) xs = map ?g xs"
      by (simp add: List.map_filter_def comp_def)
    ultimately have "normalise_st h a = Inr (h @ [ListObj (map ?g xs)], length h)"
      using assms ne False by (simp add: normalise_st_def load_list_def py_min_Min py_max_Max)
    with normalise_spread [OF ne False] show ?thesis by simp
  qed
qed

lemma summarise_st_allocates:
  assumes "a < length h" and "h ! a = ListObj vs"
  shows "\<exists>s. summarise vs = Inr s \<and>
     summarise_st h a =
       Inr (h @ [ListObj (filter (\<lambda>v. v \<noteq> None) vs), SummaryObj s], Suc (length h))"
proof -
  let ?kept = "filter (\<lambda>v. v \<noteq> None) vs"
  let ?h1 = "h @ [ListObj ?kept]"
  have "list_comp_st (\<lambda>v. Inr (if v \<noteq> None then Some v else None)) h a
      = Inr (h @ [ListObj (List.map_filter (\<lambda>v. if v \<noteq> None then Some v else None) vs)], length h)"
    using assms by (intro list_comp_st_allocates) simp_all
  moreover have "List.map_filter (\<lambda>v. if v \<noteq> None then Some v else None) vs = ?kept"
    by (induction vs) (simp_all add: List.map_filter_simps)
  ultimately have comp: "list_comp_st (\<lambda>v. Inr (if v \<noteq> None then Some v else None)) h a
      = Inr (?h1, length h)"
    by simp
  have load: "load_list (h @ [ListObj ys]) (length h) = Inr ys" for ys :: "real option list"
    by (simp add: load_list_def)
  have none: "None \<notin> set ?kept" by simp
  show ?thesis
  proof (cases "?kept = []")
    case True
    then show ?thesis
      unfolding summarise_st_def comp summarise_eq by (simp add: load new_obj_def)
  next
    case False
    then show ?thesis
      unfolding summarise_st_def comp summarise_eq
      by (simp add: load new_obj_def mean_items_def mean_def)
  qed
qed

text \<open>
  Claim C8.  Neither \<open>normalise\<close> nor \<open>summarise\<close> mutates its input.  Run on
  a store in which the argument refers to a list, each call succeeds; every object that
  existed before the call, the input list among them, is unchanged afterwards; and the
  result lives behind a reference that did not exist before the call and holds the value
  the function computes.
\<close>

theorem inputs_not_mutated:
  "(a < length h \<and> h ! a = ListObj xs \<longrightarrow>
      (\<exists>h' r out. normalise_st h a = Inr (h', r) \<and> normalise xs = Inr out \<and>
         take (length h) h' = h \<and> h' ! a = ListObj xs \<and>
         length h \<le> r \<and> r < length h' \<and> h' ! r = ListObj out)) \<and>
   (b < length k \<and> k ! b = ListObj vs \<longrightarrow>
      (\<exists>k' r s. summarise_st k b = Inr (k', r) \<and> summarise vs = Inr s \<and>
         take (length k) k' = k \<and> k' ! b = ListObj vs \<and>
         length k \<le> r \<and> r < length k' \<and> k' ! r = SummaryObj s))"
proof (intro conjI impI; elim conjE)
  assume a: "a < length h" "h ! a = ListObj xs"
  then obtain out where "normalise xs = Inr out"
    "normalise_st h a = Inr (h @ [ListObj out], length h)"
    using normalise_st_allocates by blast
  with a show "\<exists>h' r out. normalise_st h a = Inr (h', r) \<and> normalise xs = Inr out \<and>
         take (length h) h' = h \<and> h' ! a = ListObj xs \<and>
         length h \<le> r \<and> r < length h' \<and> h' ! r = ListObj out"
    by (simp add: nth_append)
next
  assume b: "b < length k" "k ! b = ListObj vs"
  then obtain s where "summarise vs = Inr s"
    "summarise_st k b = Inr (k @ [ListObj (filter (\<lambda>v. v \<noteq> None) vs), SummaryObj s], Suc (length k))"
    using summarise_st_allocates by blast
  with b show "\<exists>k' r s. summarise_st k b = Inr (k', r) \<and> summarise vs = Inr s \<and>
         take (length k) k' = k \<and> k' ! b = ListObj vs \<and>
         length k \<le> r \<and> r < length k' \<and> k' ! r = SummaryObj s"
    by (simp add: nth_append)
qed

theorem inputs_not_mutated_witness:
  "(0 < length [ListObj [1, 2, 3 :: real]] \<and> [ListObj [1, 2, 3 :: real]] ! 0 = ListObj [1, 2, 3]) \<and>
   (0 < length [ListObj [Some 1, None, Some (3 :: real)]] \<and>
      [ListObj [Some 1, None, Some (3 :: real)]] ! 0 = ListObj [Some 1, None, Some 3]) \<and>
   (\<exists>h' r out. normalise_st [ListObj [1, 2, 3]] 0 = Inr (h', r) \<and> normalise [1, 2, 3] = Inr out \<and>
         take 1 h' = [ListObj [1, 2, 3]] \<and> h' ! 0 = ListObj [1, 2, 3] \<and> 1 \<le> r \<and> r < length h' \<and> h' ! r = ListObj out) \<and>
   (\<exists>k' r s. summarise_st [ListObj [Some 1, None, Some 3]] 0 = Inr (k', r) \<and>
         summarise [Some 1, None, Some 3] = Inr s \<and>
         take 1 k' = [ListObj [Some 1, None, Some 3]] \<and>
         k' ! 0 = ListObj [Some 1, None, Some 3] \<and> 1 \<le> r \<and> r < length k' \<and>
         k' ! r = SummaryObj s)"
  using inputs_not_mutated [of 0 "[ListObj [1, 2, 3]]" "[1, 2, 3]" 0
      "[ListObj [Some 1, None, Some 3]]" "[Some 1, None, Some 3]"]
  by simp

end
